theory Spec2Isabelle
  imports Complex_Main
begin

section \<open>Errors and results\<close>

text \<open>
  Every exception that \<^verbatim>\<open>latbin/matching.py\<close> or the libraries it calls can raise on the
  inputs modelled here is a value of \<open>error\<close>; a call returns \<open>error + 'a\<close>, with \<open>Inl\<close>
  for the exception.

  Floating-point numbers are idealised as \<open>real\<close>.
\<close>

datatype error =
    NotImplementedError
  | KeyError
  | ValueError
  | DimensionMismatch
  | InvalidConfiguration
  | InvalidInputFormat

text \<open>The triple \<^verbatim>\<open>(idxs_1, idxs_2, distances)\<close> of parallel sequences.\<close>

type_synonym result = "nat list \<times> nat list \<times> real list"

section \<open>The lattice\<close>

text \<open>
  Modelled from the spec: the lattice of the module \<^verbatim>\<open>latbin.lattice\<close>, which
  \<^verbatim>\<open>matching.py\<close> imports and which is not among the sources at hand. The three
  operations that \<^verbatim>\<open>matching.py\<close> calls follow the specification's section 4.1. A
  lattice is "defined by dimension n and a scale"; the scale is the single number that
  \<^verbatim>\<open>matching.py\<close> passes.
\<close>

record lattice =
  ndim :: nat
  scale :: real

text \<open>
  Modelled from the spec: the constructor \<^verbatim>\<open>ALattice(ndim, scale=...)\<close> of the absent
  module \<^verbatim>\<open>latbin.lattice\<close>. "Invariant: scale components are strictly positive";
  a non-positive scale is an invalid configuration, "reported immediately".
\<close>

definition ALattice :: "nat \<Rightarrow> real \<Rightarrow> error + lattice" where
  "ALattice n s = (if s \<le> 0 then Inl InvalidConfiguration else Inr \<lparr>ndim = n, scale = s\<rparr>)"

text \<open>
  Modelled from the spec: \<^verbatim>\<open>quantize\<close> of the absent module \<^verbatim>\<open>latbin.lattice\<close>.
  "for each point, for each dimension, compute the cell index as
  round(component / scale_component)"; "Fails with a dimension-mismatch error if any
  point's length is not n"; "empty input, empty output". Ties are rounded up here
  (\<open>round x = \<lfloor>x + 1/2\<rfloor>\<close>); no theorem below depends on how a tie is broken.
\<close>

definition quantize :: "lattice \<Rightarrow> real list list \<Rightarrow> error + int list list" where
  "quantize lat pts =
     (if list_all (\<lambda>p. length p = ndim lat) pts
      then Inr (map (map (\<lambda>c. round (c / scale lat))) pts)
      else Inl DimensionMismatch)"

text \<open>
  Modelled from the spec: the candidates of \<^verbatim>\<open>neighborhood\<close>, all integer vectors of
  length \<open>n\<close> with every coordinate in \<open>[-k, k]\<close>.
\<close>

fun int_vectors :: "nat \<Rightarrow> int \<Rightarrow> int list list" where
  "int_vectors 0 k = [[]]"
| "int_vectors (Suc n) k = concat (map (\<lambda>c. map ((#) c) (int_vectors n k)) [- k..k])"

text \<open>Modelled from the spec: the square of the Euclidean norm of an integer vector.\<close>

definition sq_norm :: "int list \<Rightarrow> int" where
  "sq_norm v = sum_list (map (\<lambda>c. c * c) v)"

text \<open>
  Modelled from the spec: \<^verbatim>\<open>neighborhood\<close> of the absent module \<^verbatim>\<open>latbin.lattice\<close>.
  "enumerates every integer vector of length n whose Euclidean norm is at most
  lattice_space_radius, excluding the zero vector unless include_origin is true",
  implemented "by bounding each coordinate by the floor of the radius and filtering by
  norm". The norm is compared through its square.
\<close>

definition neighborhood :: "lattice \<Rightarrow> real \<Rightarrow> bool \<Rightarrow> int list list" where
  "neighborhood lat lattice_space_radius include_origin =
     filter (\<lambda>v. 0 \<le> lattice_space_radius
                \<and> real_of_int (sq_norm v) \<le> lattice_space_radius * lattice_space_radius
                \<and> (include_origin \<or> v \<noteq> replicate (ndim lat) 0))
       (int_vectors (ndim lat) \<lfloor>lattice_space_radius\<rfloor>)"

section \<open>Arrays and tables\<close>

text \<open>
  A column label is a Python object: a plain identifier (an integer position for a
  table made from an array) or a tuple of two labels. An entry of \<^verbatim>\<open>cols\<close> is such an
  object too, and \<^verbatim>\<open>isinstance(ccol, tuple)\<close> asks for the second constructor. The
  docstring of \<^verbatim>\<open>match\<close> allows an index or a tuple of two; a tuple of another length,
  which line 120 could not unpack, is not a value of this type.
\<close>

datatype label = Name nat | Tuple label label

text \<open>
  A \<^verbatim>\<open>pandas.DataFrame\<close> of numbers: its column labels and its rows, every row as long
  as the list of labels.
\<close>

record frame =
  columns :: "label list"
  rows :: "real list list"

definition wf_frame :: "frame \<Rightarrow> bool" where
  "wf_frame f = (distinct (columns f) \<and> list_all (\<lambda>r. length r = length (columns f)) (rows f))"

text \<open>
  What \<^verbatim>\<open>match\<close> accepts as \<^verbatim>\<open>data1\<close> and \<^verbatim>\<open>data2\<close>, after \<^verbatim>\<open>np.asarray\<close> for a
  value that is not a table: a one-dimensional array of shape \<open>(n,)\<close> (the empty
  sequence \<^verbatim>\<open>[]\<close> is one, of shape \<open>(0,)\<close>), a two-dimensional array of shape \<open>(n, d)\<close>
  given by \<open>d\<close> and its \<open>n\<close> rows, or a table.
\<close>

datatype data =
    NdArray1 "real list"
  | NdArray2 nat "real list list"
  | DataFrame frame

text \<open>A two-dimensional array has rows of its own width.\<close>

fun wf_data :: "data \<Rightarrow> bool" where
  "wf_data (NdArray1 xs) = True"
| "wf_data (NdArray2 d rs) = list_all (\<lambda>r. length r = d) rs"
| "wf_data (DataFrame f) = wf_frame f"

text \<open>
  Lines 108-111: \<^verbatim>\<open>pd.DataFrame(np.asarray(data))\<close> unless \<^verbatim>\<open>data\<close> is a table already.
  The table of an array of shape \<open>(n, d)\<close> has the columns \<open>0, ..., d - 1\<close>; an array of
  shape \<open>(n,)\<close> becomes a single column \<open>0\<close>.
\<close>

fun as_frame :: "data \<Rightarrow> frame" where
  "as_frame (DataFrame f) = f"
| "as_frame (NdArray2 d rs) = \<lparr>columns = map Name [0..<d], rows = rs\<rparr>"
| "as_frame (NdArray1 xs) = \<lparr>columns = [Name 0], rows = map (\<lambda>x. [x]) xs\<rparr>"

text \<open>The position of a label among the columns; \<open>None\<close> when the table has no such column.\<close>

fun col_pos :: "label list \<Rightarrow> label \<Rightarrow> nat option" where
  "col_pos [] c = None"
| "col_pos (x # xs) c = (if x = c then Some 0 else map_option Suc (col_pos xs c))"

text \<open>
  \<^verbatim>\<open>data[cols].values\<close> (lines 138-139): the matrix of the listed columns, in the listed
  order; \<^verbatim>\<open>KeyError\<close> when a listed label is not a column of the table. The labels of
  a table are distinct (\<open>wf_frame\<close>); a table with a repeated label is outside this model.
\<close>

definition select_cols :: "frame \<Rightarrow> label list \<Rightarrow> error + real list list" where
  "select_cols f cols =
     (case those (map (col_pos (columns f)) cols) of
        None \<Rightarrow> Inl KeyError
      | Some ps \<Rightarrow> Inr (map (\<lambda>r. map (\<lambda>p. r ! p) ps) (rows f)))"

section \<open>Distances\<close>

text \<open>
  The difference of two rows, \<^verbatim>\<open>data1[i] - data2[j]\<close>, under numpy's broadcasting: rows of
  one length are subtracted elementwise, a row of length 1 is stretched, and any other
  pair of lengths raises \<^verbatim>\<open>ValueError\<close>.
\<close>

definition np_sub :: "real list \<Rightarrow> real list \<Rightarrow> error + real list" where
  "np_sub p q =
     (if length p = length q then Inr (map2 (-) p q)
      else if length p = 1 then Inr (map (\<lambda>b. hd p - b) q)
      else if length q = 1 then Inr (map (\<lambda>a. a - hd q) p)
      else Inl ValueError)"

text \<open>\<^verbatim>\<open>np.sum((p - q)**2)\<close>\<close>

definition sq_dist :: "real list \<Rightarrow> real list \<Rightarrow> error + real" where
  "sq_dist p q =
     (case np_sub p q of Inl e \<Rightarrow> Inl e | Inr d \<Rightarrow> Inr (sum_list (map (\<lambda>x. x\<^sup>2) d)))"

text \<open>
  The verification of the candidates of one row, which \<^verbatim>\<open>brute_match\<close> (lines 18-23) and
  \<^verbatim>\<open>match\<close> (lines 170-175) write in the same words:
  \<^verbatim>\<open>
      for j in candidates:
          dist = np.sum((data1[i] - data2[j])**2)
          if dist <= thresh:
              idxs_1.append(i); idxs_2.append(j); distances.append(np.sqrt(dist))
  \<close>
\<close>

fun verify_row ::
  "real list list \<Rightarrow> real list list \<Rightarrow> real \<Rightarrow> nat \<Rightarrow> nat list \<Rightarrow> result \<Rightarrow> error + result"
where
  "verify_row data1 data2 thresh i [] acc = Inr acc"
| "verify_row data1 data2 thresh i (j # js) (idxs_1, idxs_2, distances) =
     (case sq_dist (data1 ! i) (data2 ! j) of
        Inl e \<Rightarrow> Inl e
      | Inr dist_sq \<Rightarrow>
          verify_row data1 data2 thresh i js
            (if dist_sq \<le> thresh
             then (idxs_1 @ [i], idxs_2 @ [j], distances @ [sqrt dist_sq])
             else (idxs_1, idxs_2, distances)))"

section \<open>The brute-force matcher\<close>

text \<open>
  Lines 17-23 of \<^verbatim>\<open>brute_match\<close>: the outer loop over \<^verbatim>\<open>range(len(data1))\<close>, the inner one
  over \<^verbatim>\<open>range(len(data2))\<close>, the threshold \<^verbatim>\<open>tolerance**2\<close>. The two arguments are
  two-dimensional arrays, given by their rows (\<^verbatim>\<open>data1[i]\<close> is row \<open>i\<close>). The function has
  no \<^verbatim>\<open>raise\<close> of its own; the subtraction of rows of different lengths is the only
  error it can meet.
\<close>

fun brute_rows ::
  "real list list \<Rightarrow> real list list \<Rightarrow> real \<Rightarrow> nat list \<Rightarrow> result \<Rightarrow> error + result"
where
  "brute_rows data1 data2 tolerance [] acc = Inr acc"
| "brute_rows data1 data2 tolerance (i # is) acc =
     (case verify_row data1 data2 (tolerance\<^sup>2) i [0..<length data2] acc of
        Inl e \<Rightarrow> Inl e
      | Inr acc' \<Rightarrow> brute_rows data1 data2 tolerance is acc')"

definition brute_match :: "real list list \<Rightarrow> real list list \<Rightarrow> real \<Rightarrow> error + result" where
  "brute_match data1 data2 tolerance =
     brute_rows data1 data2 tolerance [0..<length data1] ([], [], [])"

section \<open>The hash-join matcher\<close>

text \<open>
  Lines 115-124 of \<^verbatim>\<open>match\<close>:
  \<^verbatim>\<open>
      for col_idx in range(len(cols)):
          ccol = cols[col_idx]
          if isinstance(ccol, tuple):
              c1, c2 = ccol
              cols1.append(c1)
              cols2.append(c2)
          cols1.append(ccol)
          cols2.append(ccol)
  \<close>
  The last two appends are not under an \<^verbatim>\<open>else\<close>: they run for a tuple as well.
\<close>

fun cols_loop :: "label list \<Rightarrow> label list \<Rightarrow> label list \<Rightarrow> label list \<times> label list" where
  "cols_loop [] cols1 cols2 = (cols1, cols2)"
| "cols_loop (Tuple c1 c2 # rest) cols1 cols2 =
     cols_loop rest (cols1 @ [c1] @ [Tuple c1 c2]) (cols2 @ [c2] @ [Tuple c1 c2])"
| "cols_loop (Name c # rest) cols1 cols2 =
     cols_loop rest (cols1 @ [Name c]) (cols2 @ [Name c])"

text \<open>
  Lines 155-159: one index added to the set stored under a key of \<^verbatim>\<open>cdict\<close>. The Python
  \<^verbatim>\<open>set\<close> is a duplicate-free list in the order of insertion; the order in which Python
  iterates a set is not specified, and the theorems below speak of the set of returned
  pairs only.
\<close>

definition cdict_add :: "(int list \<rightharpoonup> nat list) \<Rightarrow> int list \<Rightarrow> nat \<Rightarrow> (int list \<rightharpoonup> nat list)" where
  "cdict_add cdict ptup pvec_idx =
     cdict(ptup \<mapsto> List.insert pvec_idx (case cdict ptup of None \<Rightarrow> [] | Some dval \<Rightarrow> dval))"

text \<open>Lines 150-159: the dictionary of all shifted copies of the short collection's cells.\<close>

definition build_cdict :: "int list list list \<Rightarrow> (int list \<rightharpoonup> nat list)" where
  "build_cdict all_trans =
     fold (\<lambda>atrans cdict.
             fold (\<lambda>pvec_idx cdict. cdict_add cdict (atrans ! pvec_idx) pvec_idx)
               [0..<length atrans] cdict)
       all_trans Map.empty"

text \<open>Lines 165-175: the probe of the dictionary with every cell of the long collection.\<close>

fun probe_rows ::
  "(int list \<rightharpoonup> nat list) \<Rightarrow> int list list \<Rightarrow> real list list \<Rightarrow> real list list \<Rightarrow> real
     \<Rightarrow> nat list \<Rightarrow> result \<Rightarrow> error + result"
where
  "probe_rows cdict long_pts d1vals d2vals dthresh [] acc = Inr acc"
| "probe_rows cdict long_pts d1vals d2vals dthresh (long_idx # rest) acc =
     (case cdict (long_pts ! long_idx) of
        None \<Rightarrow> probe_rows cdict long_pts d1vals d2vals dthresh rest acc
      | Some possible_match_set \<Rightarrow>
          (case verify_row d1vals d2vals dthresh long_idx possible_match_set acc of
             Inl e \<Rightarrow> Inl e
           | Inr acc' \<Rightarrow> probe_rows cdict long_pts d1vals d2vals dthresh rest acc'))"

text \<open>\<^verbatim>\<open>short_pts + neighbor_vec\<close> (line 147): the vector added to every row.\<close>

definition shift_pts :: "int list list \<Rightarrow> int list \<Rightarrow> int list list" where
  "shift_pts pts vec = map (\<lambda>p. map2 (+) p vec) pts"

text \<open>Lines 140-175: quantisation, the dictionary, the probe and the exact verification.\<close>

definition hash_join ::
  "lattice \<Rightarrow> real list list \<Rightarrow> real list list \<Rightarrow> real \<Rightarrow> error + result"
where
  "hash_join qlat d1vals d2vals tolerance =
     (case quantize qlat d1vals of
        Inl e \<Rightarrow> Inl e
      | Inr long_pts \<Rightarrow>
     (case quantize qlat d2vals of
        Inl e \<Rightarrow> Inl e
      | Inr short_pts \<Rightarrow>
          probe_rows
            (build_cdict (short_pts # map (shift_pts short_pts) (neighborhood qlat 2.1 False)))
            long_pts d1vals d2vals (tolerance\<^sup>2) [0..<length long_pts] ([], [], [])))"

text \<open>Lines 177-180: the index sequences exchanged back after a swap.\<close>

fun unswitch :: "bool \<Rightarrow> result \<Rightarrow> result" where
  "unswitch switched (idxs_1, idxs_2, distances) =
     (if switched then (idxs_2, idxs_1, distances) else (idxs_1, idxs_2, distances))"

text \<open>
  \<^verbatim>\<open>match(data1, data2, tolerance, cols)\<close>, lines 108-186, in the order of the source: the
  tables, the column lists, the test of the tolerance, the lattice, the swap, the
  selection of the columns (\<^verbatim>\<open>cols1\<close> from the longer table, \<^verbatim>\<open>cols2\<close> from the shorter
  one), and the join.
\<close>

definition match :: "data \<Rightarrow> data \<Rightarrow> real \<Rightarrow> label list option \<Rightarrow> error + result" where
  "match data1 data2 tolerance cols =
     (let frame1 = as_frame data1;
          frame2 = as_frame data2;
          cols' = (case cols of None \<Rightarrow> columns frame1 | Some cs \<Rightarrow> cs);
          nmatch_cols = length cols';
          cols12 = cols_loop cols' [] []
      in if tolerance \<le> 0 then Inl NotImplementedError
         else
           (case ALattice nmatch_cols (1.3 * tolerance) of
              Inl e \<Rightarrow> Inl e
            | Inr qlat \<Rightarrow>
                (let switched = (length (rows frame2) > length (rows frame1));
                     long = (if switched then frame2 else frame1);
                     short = (if switched then frame1 else frame2)
                 in case select_cols long (fst cols12) of
                      Inl e \<Rightarrow> Inl e
                    | Inr d1vals \<Rightarrow>
                   (case select_cols short (snd cols12) of
                      Inl e \<Rightarrow> Inl e
                    | Inr d2vals \<Rightarrow>
                   (case hash_join qlat d1vals d2vals tolerance of
                      Inl e \<Rightarrow> Inl e
                    | Inr r \<Rightarrow> Inr (unswitch switched r))))))"

section \<open>The matching indexer\<close>

record indexer =
  ix_x :: "real list list"
  ix_tolerance :: real
  ix_lat :: lattice
  ix_neighborhood_vecs :: "int list list"
  ix_matching_dict :: "int list \<rightharpoonup> nat list"

text \<open>Lines 48-50: an index appended to the list stored under a key.\<close>

definition dict_append :: "(int list \<rightharpoonup> nat list) \<Rightarrow> int list \<Rightarrow> nat \<Rightarrow> (int list \<rightharpoonup> nat list)" where
  "dict_append matching_dict xtup xq_idx =
     matching_dict(xtup \<mapsto> (case matching_dict xtup of None \<Rightarrow> [] | Some match_list \<Rightarrow> match_list) @ [xq_idx])"

text \<open>
  \<^verbatim>\<open>MatchingIndexer.__init__\<close>, lines 31-50. \<^verbatim>\<open>x\<close> is a two-dimensional array, of shape
  \<open>(length x, n)\<close>. The fields of the object carry the prefix \<open>ix_\<close>, and its method
  \<^verbatim>\<open>match\<close> is \<open>indexer_match\<close> below, the name \<open>match\<close> being the module-level function.
\<close>

definition MatchingIndexer :: "nat \<Rightarrow> real list list \<Rightarrow> real \<Rightarrow> error + indexer" where
  "MatchingIndexer n x tolerance =
     (case ALattice n (tolerance * 1.3) of
        Inl e \<Rightarrow> Inl e
      | Inr lat \<Rightarrow>
     (case quantize lat x of
        Inl e \<Rightarrow> Inl e
      | Inr xquant \<Rightarrow>
          Inr \<lparr>ix_x = x, ix_tolerance = tolerance, ix_lat = lat,
               ix_neighborhood_vecs = neighborhood lat 2.0 True,
               ix_matching_dict =
                 fold (\<lambda>shift_vec matching_dict.
                         fold (\<lambda>xq_idx matching_dict.
                                 dict_append matching_dict (map2 (+) (xquant ! xq_idx) shift_vec) xq_idx)
                           [0..<length x] matching_dict)
                   (neighborhood lat 2.0 True) Map.empty\<rparr>))"

text \<open>Lines 57-62: the candidate pairs, one dictionary lookup for each query point.\<close>

definition potential_matches :: "(int list \<rightharpoonup> nat list) \<Rightarrow> int list list \<Rightarrow> (nat \<times> nat) list" where
  "potential_matches matching_dict xquant =
     concat (map (\<lambda>out_idx.
                    map (\<lambda>midx. (out_idx, midx))
                      (case matching_dict (xquant ! out_idx) of None \<Rightarrow> [] | Some cp_matches \<Rightarrow> cp_matches))
               [0..<length xquant])"

text \<open>Lines 66-70: a candidate is kept when its squared distance is below \<^verbatim>\<open>tol_sq\<close>.\<close>

fun clean_matches ::
  "real list list \<Rightarrow> real list list \<Rightarrow> real \<Rightarrow> (nat \<times> nat) list
     \<Rightarrow> (nat \<times> nat) list \<times> real list \<Rightarrow> error + (nat \<times> nat) list \<times> real list"
where
  "clean_matches x ref_x tol_sq [] acc = Inr acc"
| "clean_matches x ref_x tol_sq ((idx1, idx2) # rest) (cleaned_matches, distances) =
     (case sq_dist (x ! idx1) (ref_x ! idx2) of
        Inl e \<Rightarrow> Inl e
      | Inr dist_sq \<Rightarrow>
          clean_matches x ref_x tol_sq rest
            (if dist_sq < tol_sq
             then (cleaned_matches @ [(idx1, idx2)], distances @ [dist_sq])
             else (cleaned_matches, distances)))"

text \<open>\<^verbatim>\<open>MatchingIndexer.match\<close>, lines 53-72.\<close>

definition indexer_match :: "indexer \<Rightarrow> real list list \<Rightarrow> error + (nat \<times> nat) list \<times> real list" where
  "indexer_match self x =
     (case quantize (ix_lat self) x of
        Inl e \<Rightarrow> Inl e
      | Inr xquant \<Rightarrow>
     (case clean_matches x (ix_x self) ((ix_tolerance self)\<^sup>2)
             (potential_matches (ix_matching_dict self) xquant) ([], []) of
        Inl e \<Rightarrow> Inl e
      | Inr (cleaned_matches, distances) \<Rightarrow> Inr (cleaned_matches, map sqrt distances)))"

section \<open>Sparse matrices\<close>

text \<open>
  A \<^verbatim>\<open>scipy.sparse.coo_matrix\<close>: its shape and its explicit entries (row, column, value).
\<close>

record coo =
  shape :: "nat \<times> nat"
  entries :: "(nat \<times> nat \<times> real) list"

text \<open>\<^verbatim>\<open>coo_matrix((data, (row, col)), shape=...)\<close>\<close>

definition coo_matrix :: "real list \<Rightarrow> nat list \<Rightarrow> nat list \<Rightarrow> nat \<times> nat \<Rightarrow> coo" where
  "coo_matrix vals row col mat_shape = \<lparr>shape = mat_shape, entries = zip row (zip col vals)\<rparr>"

text \<open>
  \<^verbatim>\<open>np.asarray(idxs).transpose()\<close> unpacked by \<^verbatim>\<open>coo_matrix\<close> into \<^verbatim>\<open>(row, col)\<close>. A list of
  \<open>k > 0\<close> pairs is an array of shape \<open>(k, 2)\<close>, whose transpose has the two rows wanted.
  The empty list is an array of shape \<open>(0,)\<close>, its transpose too, and there is nothing to
  unpack: \<^verbatim>\<open>coo_matrix\<close> refuses its argument (scipy raises
  \<^verbatim>\<open>TypeError('invalid input format')\<close>, or \<^verbatim>\<open>ValueError\<close> for the number of
  index arrays in later versions; one error value stands for both).
\<close>

definition index_arrays :: "(nat \<times> nat) list \<Rightarrow> error + nat list \<times> nat list" where
  "index_arrays idxs =
     (if idxs = [] then Inl InvalidInputFormat else Inr (map fst idxs, map snd idxs))"

text \<open>\<^verbatim>\<open>MatchingIndexer.distance_matrix\<close>, lines 75-83.\<close>

definition distance_matrix :: "indexer \<Rightarrow> real list list \<Rightarrow> error + coo" where
  "distance_matrix self x =
     (case indexer_match self x of
        Inl e \<Rightarrow> Inl e
      | Inr (idxs, distances) \<Rightarrow>
     (case index_arrays idxs of
        Inl e \<Rightarrow> Inl e
      | Inr (row, col) \<Rightarrow> Inr (coo_matrix distances row col (length x, length (ix_x self)))))"

text \<open>\<^verbatim>\<open>len(data)\<close>: the number of rows of an array or of a table.\<close>

definition data_len :: "data \<Rightarrow> nat" where
  "data_len d = length (rows (as_frame d))"

text \<open>The default kernel of line 214.\<close>

definition default_rbf :: "real \<Rightarrow> real" where
  "default_rbf x = exp (- 0.5 * x\<^sup>2)"

text \<open>
  \<^verbatim>\<open>sparse_distance_matrix\<close>, lines 211-220. The kernel is a function of one distance,
  applied to the vector of distances entry by entry.
\<close>

definition sparse_distance_matrix ::
  "data \<Rightarrow> data option \<Rightarrow> real \<Rightarrow> (real \<Rightarrow> real) option \<Rightarrow> label list option \<Rightarrow> error + coo"
where
  "sparse_distance_matrix data1 data2 max_dist rbf cols =
     (let data2' = (case data2 of None \<Rightarrow> data1 | Some d \<Rightarrow> d);
          rbf' = (case rbf of None \<Rightarrow> default_rbf | Some f \<Rightarrow> f)
      in case match data1 data2' max_dist cols of
           Inl e \<Rightarrow> Inl e
         | Inr (idxs_1, idxs_2, distances) \<Rightarrow>
             Inr (coo_matrix (map rbf' distances) idxs_1 idxs_2 (data_len data1, data_len data2')))"

section \<open>The matcher over any lattice\<close>

text \<open>
  \<^verbatim>\<open>matching.py\<close> uses three things of \<^verbatim>\<open>latbin.lattice\<close>: the constructor \<^verbatim>\<open>ALattice\<close>, and
  the methods \<^verbatim>\<open>quantize\<close> and \<^verbatim>\<open>neighborhood\<close> of the object it returns. A lattice object
  is given here by these two methods, so that the lines of \<^verbatim>\<open>match\<close> can be read with the
  lattice left open.
\<close>

record lattice_obj =
  quantize_of :: "real list list \<Rightarrow> error + int list list"
  neighborhood_of :: "real \<Rightarrow> bool \<Rightarrow> int list list"

text \<open>Lines 140-175 again, word for word as \<open>hash_join\<close>, with the methods of the object.\<close>

definition hash_join_on ::
  "lattice_obj \<Rightarrow> real list list \<Rightarrow> real list list \<Rightarrow> real \<Rightarrow> error + result"
where
  "hash_join_on qlat d1vals d2vals tolerance =
     (case quantize_of qlat d1vals of
        Inl e \<Rightarrow> Inl e
      | Inr long_pts \<Rightarrow>
     (case quantize_of qlat d2vals of
        Inl e \<Rightarrow> Inl e
      | Inr short_pts \<Rightarrow>
          probe_rows
            (build_cdict (short_pts # map (shift_pts short_pts) (neighborhood_of qlat 2.1 False)))
            long_pts d1vals d2vals (tolerance\<^sup>2) [0..<length long_pts] ([], [], [])))"

text \<open>
  \<^verbatim>\<open>match\<close>, lines 108-186, word for word as above, with the constructor of the lattice as
  its first argument.
\<close>

definition match_on ::
  "(nat \<Rightarrow> real \<Rightarrow> error + lattice_obj) \<Rightarrow> data \<Rightarrow> data \<Rightarrow> real \<Rightarrow> label list option
     \<Rightarrow> error + result"
where
  "match_on alattice data1 data2 tolerance cols =
     (let frame1 = as_frame data1;
          frame2 = as_frame data2;
          cols' = (case cols of None \<Rightarrow> columns frame1 | Some cs \<Rightarrow> cs);
          nmatch_cols = length cols';
          cols12 = cols_loop cols' [] []
      in if tolerance \<le> 0 then Inl NotImplementedError
         else
           (case alattice nmatch_cols (1.3 * tolerance) of
              Inl e \<Rightarrow> Inl e
            | Inr qlat \<Rightarrow>
                (let switched = (length (rows frame2) > length (rows frame1));
                     long = (if switched then frame2 else frame1);
                     short = (if switched then frame1 else frame2)
                 in case select_cols long (fst cols12) of
                      Inl e \<Rightarrow> Inl e
                    | Inr d1vals \<Rightarrow>
                   (case select_cols short (snd cols12) of
                      Inl e \<Rightarrow> Inl e
                    | Inr d2vals \<Rightarrow>
                   (case hash_join_on qlat d1vals d2vals tolerance of
                      Inl e \<Rightarrow> Inl e
                    | Inr r \<Rightarrow> Inr (unswitch switched r))))))"

text \<open>
  Modelled from the spec: the lattice of section 4.1 as such an object. \<open>match\<close> is
  \<open>match_on spec_lattice\<close> (\<open>match_is_match_on_spec_lattice\<close> below).
\<close>

definition spec_lattice :: "nat \<Rightarrow> real \<Rightarrow> error + lattice_obj" where
  "spec_lattice n s =
     (case ALattice n s of
        Inl e \<Rightarrow> Inl e
      | Inr lat \<Rightarrow> Inr \<lparr>quantize_of = quantize lat, neighborhood_of = neighborhood lat\<rparr>)"

section \<open>Notions for the statements\<close>

text \<open>
  A collection of points of one dimension: every row has \<open>d\<close> components.
\<close>

definition uniform :: "nat \<Rightarrow> 'a list list \<Rightarrow> bool" where
  "uniform d rs = list_all (\<lambda>r. length r = d) rs"

text \<open>The squared Euclidean distance of two rows of one length.\<close>

definition dsq :: "real list \<Rightarrow> real list \<Rightarrow> real" where
  "dsq p q = sum_list (map (\<lambda>(a, b). (a - b)\<^sup>2) (zip p q))"

text \<open>The returned triple as sets: its index pairs, and its pairs with their distance.\<close>

definition pairs :: "result \<Rightarrow> (nat \<times> nat) set" where
  "pairs r = set (zip (fst r) (fst (snd r)))"

definition matches :: "result \<Rightarrow> (nat \<times> nat \<times> real) set" where
  "matches r = set (zip (fst r) (zip (fst (snd r)) (snd (snd r))))"

text \<open>The three sequences after a list of matches has been appended to them.\<close>

definition appended :: "result \<Rightarrow> (nat \<times> nat \<times> real) list \<Rightarrow> result" where
  "appended acc ts =
     (fst acc @ map fst ts, fst (snd acc) @ map (\<lambda>t. fst (snd t)) ts,
      snd (snd acc) @ map (\<lambda>t. snd (snd t)) ts)"

text \<open>What the verification keeps of the candidates \<open>js\<close> of row \<open>i\<close>, and of all rows.\<close>

definition kept_row ::
  "real list list \<Rightarrow> real list list \<Rightarrow> real \<Rightarrow> nat \<Rightarrow> nat list \<Rightarrow> (nat \<times> nat \<times> real) list"
where
  "kept_row d1 d2 thresh i js =
     map (\<lambda>j. (i, j, sqrt (dsq (d1 ! i) (d2 ! j))))
       (filter (\<lambda>j. dsq (d1 ! i) (d2 ! j) \<le> thresh) js)"

definition kept ::
  "real list list \<Rightarrow> real list list \<Rightarrow> real \<Rightarrow> (nat \<Rightarrow> nat list) \<Rightarrow> nat list
     \<Rightarrow> (nat \<times> nat \<times> real) list"
where
  "kept d1 d2 thresh cands is = concat (map (\<lambda>i. kept_row d1 d2 thresh i (cands i)) is)"

text \<open>The indices stored under a key of a dictionary; none for a missing key.\<close>

definition entry_of :: "(int list \<rightharpoonup> nat list) \<Rightarrow> int list \<Rightarrow> nat list" where
  "entry_of cdict key = (case cdict key of None \<Rightarrow> [] | Some s \<Rightarrow> s)"

definition cd_set :: "(int list \<rightharpoonup> nat list) \<Rightarrow> int list \<Rightarrow> nat set" where
  "cd_set cdict key = set (entry_of cdict key)"

definition cd_distinct :: "(int list \<rightharpoonup> nat list) \<Rightarrow> bool" where
  "cd_distinct cdict = (\<forall>key. distinct (entry_of cdict key))"

text \<open>
  The cell of a point, and the cells that the dictionary of \<^verbatim>\<open>match\<close> pairs up: the cell
  \<open>w\<close> of a point of the short collection is found from the cell \<open>v\<close> of a point of the
  long one when \<open>w\<close> itself or \<open>w\<close> shifted by a neighbour vector is \<open>v\<close>.
\<close>

definition cell :: "lattice \<Rightarrow> real list \<Rightarrow> int list" where
  "cell lat p = map (\<lambda>c. round (c / scale lat)) p"

definition near :: "lattice \<Rightarrow> int list \<Rightarrow> int list \<Rightarrow> bool" where
  "near lat v w = (w = v \<or> list_ex (\<lambda>nv. map2 (+) w nv = v) (neighborhood lat 2.1 False))"

text \<open>The matches of the hash join: the pairs of near cells within the tolerance.\<close>

definition join_set ::
  "lattice \<Rightarrow> real \<Rightarrow> real list list \<Rightarrow> real list list \<Rightarrow> (nat \<times> nat \<times> real) set"
where
  "join_set lat tolerance d1 d2 =
     {(i, j, sqrt (dsq (d1 ! i) (d2 ! j))) | i j.
        i < length d1 \<and> j < length d2 \<and> near lat (cell lat (d1 ! i)) (cell lat (d2 ! j))
        \<and> dsq (d1 ! i) (d2 ! j) \<le> tolerance\<^sup>2}"

text \<open>A match with the roles of its two indices exchanged.\<close>

definition swap3 :: "nat \<times> nat \<times> real \<Rightarrow> nat \<times> nat \<times> real" where
  "swap3 t = (fst (snd t), fst t, snd (snd t))"

text \<open>The matches of the exhaustive comparison: all pairs within the tolerance.\<close>

definition brute_set :: "real \<Rightarrow> real list list \<Rightarrow> real list list \<Rightarrow> (nat \<times> nat \<times> real) set" where
  "brute_set tolerance d1 d2 =
     {(i, j, sqrt (dsq (d1 ! i) (d2 ! j))) | i j.
        i < length d1 \<and> j < length d2 \<and> dsq (d1 ! i) (d2 ! j) \<le> tolerance\<^sup>2}"

text \<open>A label that is a plain identifier, not a tuple.\<close>

fun is_plain :: "label \<Rightarrow> bool" where
  "is_plain (Name c) = True"
| "is_plain (Tuple c1 c2) = False"

text \<open>A dictionary all of whose stored indices are below \<open>n\<close>.\<close>

definition in_range :: "nat \<Rightarrow> (int list \<rightharpoonup> nat list) \<Rightarrow> bool" where
  "in_range n matching_dict = (\<forall>key. list_all (\<lambda>j. j < n) (entry_of matching_dict key))"




section \<open>Properties of the loops\<close>

lemma sq_dist_same_length: "length p = length q \<Longrightarrow> sq_dist p q = Inr (dsq p q)"
  by (simp add: sq_dist_def np_sub_def dsq_def split_def comp_def)

lemma appended_Nil: "appended acc [] = acc"
  by (simp add: appended_def)

lemma appended_append: "appended (appended acc ts) us = appended acc (ts @ us)"
  by (simp add: appended_def)

lemma uniform_nth: "uniform d rs \<Longrightarrow> i < length rs \<Longrightarrow> length (rs ! i) = d"
  by (simp add: uniform_def list_all_length)

lemma verify_row_kept:
  assumes "uniform d d1" "uniform d d2" "i < length d1" "list_all (\<lambda>j. j < length d2) js"
  shows "verify_row d1 d2 thresh i js acc = Inr (appended acc (kept_row d1 d2 thresh i js))"
  using assms(4)
proof (induction js arbitrary: acc)
  case Nil
  show ?case by (cases acc) (simp add: kept_row_def appended_def)
next
  case (Cons j js)
  obtain a1 a2 a3 where acc: "acc = (a1, a2, a3)" by (cases acc)
  from Cons.prems have j: "j < length d2" and js: "list_all (\<lambda>j. j < length d2) js" by simp_all
  have len: "length (d1 ! i) = length (d2 ! j)"
    using assms(1-3) j by (simp add: uniform_nth)
  have sd: "sq_dist (d1 ! i) (d2 ! j) = Inr (dsq (d1 ! i) (d2 ! j))"
    by (rule sq_dist_same_length [OF len])
  show ?case
    by (simp add: acc sd Cons.IH [OF js] kept_row_def appended_def)
qed

lemma kept_Cons: "kept d1 d2 thresh cands (i # is) = kept_row d1 d2 thresh i (cands i) @ kept d1 d2 thresh cands is"
  by (simp add: kept_def)

lemma brute_rows_kept:
  assumes "uniform d d1" "uniform d d2" "list_all (\<lambda>i. i < length d1) is"
  shows "brute_rows d1 d2 tolerance is acc
         = Inr (appended acc (kept d1 d2 (tolerance\<^sup>2) (\<lambda>i. [0..<length d2]) is))"
  using assms(3)
proof (induction "is" arbitrary: acc)
  case Nil
  show ?case by (simp add: kept_def appended_Nil)
next
  case (Cons i "is")
  from Cons.prems have i: "i < length d1" and rest: "list_all (\<lambda>i. i < length d1) is" by simp_all
  have all: "list_all (\<lambda>j. j < length d2) [0..<length d2]" by (simp add: list_all_iff)
  show ?case
    by (simp add: verify_row_kept [OF assms(1,2) i all] Cons.IH [OF rest] appended_append kept_Cons)
qed

lemma probe_rows_kept:
  assumes "uniform d d1" "uniform d d2" "list_all (\<lambda>i. i < length d1) is"
    and "\<And>key. list_all (\<lambda>j. j < length d2) (entry_of cdict key)"
  shows "probe_rows cdict long_pts d1 d2 thresh is acc
         = Inr (appended acc (kept d1 d2 thresh (\<lambda>i. entry_of cdict (long_pts ! i)) is))"
  using assms(3)
proof (induction "is" arbitrary: acc)
  case Nil
  show ?case by (simp add: kept_def appended_Nil)
next
  case (Cons i "is")
  from Cons.prems have i: "i < length d1" and rest: "list_all (\<lambda>i. i < length d1) is" by simp_all
  show ?case
  proof (cases "cdict (long_pts ! i)")
    case None
    then show ?thesis
      by (simp add: Cons.IH [OF rest] kept_Cons entry_of_def kept_row_def)
  next
    case (Some s)
    have all: "list_all (\<lambda>j. j < length d2) s"
      using assms(4) [of "long_pts ! i"] Some by (simp add: entry_of_def)
    show ?thesis
      by (simp add: Some verify_row_kept [OF assms(1,2) i all] Cons.IH [OF rest]
          appended_append kept_Cons entry_of_def)
  qed
qed

lemma cd_set_add:
  "cd_set (cdict_add cdict ptup i) key = (if key = ptup then insert i (cd_set cdict key) else cd_set cdict key)"
  by (auto simp: cd_set_def cdict_add_def entry_of_def split: option.splits)

lemma cd_set_fold_idx:
  "cd_set (fold (\<lambda>pvec_idx cdict. cdict_add cdict (atrans ! pvec_idx) pvec_idx) js cdict) key
   = cd_set cdict key \<union> {j \<in> set js. atrans ! j = key}"
  by (induction js arbitrary: cdict) (auto simp: cd_set_add)

lemma cd_set_build_gen:
  "cd_set (fold (\<lambda>atrans cdict.
             fold (\<lambda>pvec_idx cdict. cdict_add cdict (atrans ! pvec_idx) pvec_idx)
               [0..<length atrans] cdict) all_trans cdict) key
   = cd_set cdict key \<union> {j. \<exists>t \<in> set all_trans. j < length t \<and> t ! j = key}"
  by (induction all_trans arbitrary: cdict) (auto simp: cd_set_fold_idx)

lemma cd_set_build:
  "cd_set (build_cdict all_trans) key = {j. \<exists>t \<in> set all_trans. j < length t \<and> t ! j = key}"
  by (simp add: build_cdict_def cd_set_build_gen) (simp add: cd_set_def entry_of_def)

lemma cd_distinct_add: "cd_distinct cdict \<Longrightarrow> cd_distinct (cdict_add cdict ptup i)"
  by (auto simp: cd_distinct_def cdict_add_def entry_of_def split: option.splits)

lemma cd_distinct_fold_idx:
  "cd_distinct cdict \<Longrightarrow> cd_distinct (fold (\<lambda>pvec_idx cdict. cdict_add cdict (atrans ! pvec_idx) pvec_idx) js cdict)"
  by (induction js arbitrary: cdict) (auto simp: cd_distinct_add)

lemma cd_distinct_build: "cd_distinct (build_cdict all_trans)"
proof -
  have "cd_distinct cdict \<Longrightarrow> cd_distinct (fold (\<lambda>atrans cdict.
             fold (\<lambda>pvec_idx cdict. cdict_add cdict (atrans ! pvec_idx) pvec_idx)
               [0..<length atrans] cdict) all_trans cdict)" for cdict
    by (induction all_trans arbitrary: cdict) (auto simp: cd_distinct_fold_idx)
  moreover have "cd_distinct Map.empty" by (simp add: cd_distinct_def entry_of_def)
  ultimately show ?thesis by (simp add: build_cdict_def)
qed

lemma int_vectors_set:
  "set (int_vectors n k) = {v. length v = n \<and> list_all (\<lambda>c. - k \<le> c \<and> c \<le> k) v}"
proof (induction n)
  case 0
  show ?case by auto
next
  case (Suc n)
  show ?case
  proof (rule set_eqI)
    fix v
    show "v \<in> set (int_vectors (Suc n) k) \<longleftrightarrow> v \<in> {v. length v = Suc n \<and> list_all (\<lambda>c. - k \<le> c \<and> c \<le> k) v}"
      using Suc.IH by (cases v) auto
  qed
qed

lemma neighborhood_set:
  "set (neighborhood lat r io) =
     {v. length v = ndim lat \<and> list_all (\<lambda>c. - \<lfloor>r\<rfloor> \<le> c \<and> c \<le> \<lfloor>r\<rfloor>) v \<and> 0 \<le> r
         \<and> real_of_int (sq_norm v) \<le> r * r \<and> (io \<or> v \<noteq> replicate (ndim lat) 0)}"
  by (auto simp: neighborhood_def int_vectors_set)

lemma col_pos_nth: "distinct cs \<Longrightarrow> i < length cs \<Longrightarrow> col_pos cs (cs ! i) = Some i"
proof (induction cs arbitrary: i)
  case Nil
  then show ?case by simp
next
  case (Cons c cs)
  show ?case
  proof (cases i)
    case 0
    then show ?thesis by simp
  next
    case (Suc k)
    with Cons.prems have "k < length cs" "distinct cs" "cs ! k \<noteq> c" by auto
    with Cons.IH [of k] Suc show ?thesis by auto
  qed
qed

lemma those_map_Some: "those (map Some xs) = Some xs"
  by (induction xs) simp_all

lemma col_pos_all: "distinct cs \<Longrightarrow> map (col_pos cs) cs = map Some [0..<length cs]"
  by (rule nth_equalityI) (simp_all add: col_pos_nth)

lemma select_cols_all:
  assumes "distinct (columns f)" "uniform (length (columns f)) (rows f)"
  shows "select_cols f (columns f) = Inr (rows f)"
proof -
  have "map (\<lambda>p. r ! p) [0..<length (columns f)] = r" if "r \<in> set (rows f)" for r
  proof -
    from that assms(2) have "length r = length (columns f)"
      by (simp add: uniform_def list_all_iff)
    then show ?thesis using map_nth [of r] by simp
  qed
  then have "map (\<lambda>r. map (\<lambda>p. r ! p) [0..<length (columns f)]) (rows f) = rows f"
    by (simp add: map_idI)
  then show ?thesis
    by (simp add: select_cols_def col_pos_all [OF assms(1)] those_map_Some)
qed

lemma cols_loop_names:
  "cols_loop (map Name ns) cols1 cols2 = (cols1 @ map Name ns, cols2 @ map Name ns)"
  by (induction ns arbitrary: cols1 cols2) simp_all

lemma quantize_uniform: "uniform (ndim lat) pts \<Longrightarrow> quantize lat pts = Inr (map (cell lat) pts)"
  by (simp add: quantize_def uniform_def cell_def)

lemma set_kept:
  "set (kept d1 d2 thresh cands is) =
     {(i, j, sqrt (dsq (d1 ! i) (d2 ! j))) | i j.
        i \<in> set is \<and> j \<in> set (cands i) \<and> dsq (d1 ! i) (d2 ! j) \<le> thresh}"
  by (auto simp: kept_def kept_row_def)

lemma matches_appended: "matches (appended ([], [], []) ts) = set ts"
proof -
  have "zip (map fst ts) (zip (map (\<lambda>t. fst (snd t)) ts) (map (\<lambda>t. snd (snd t)) ts)) = ts"
    by (induction ts) simp_all
  then show ?thesis by (simp add: matches_def appended_def)
qed

lemma pairs_appended: "pairs (appended ([], [], []) ts) = (\<lambda>t. (fst t, fst (snd t))) ` set ts"
proof -
  have "zip (map fst ts) (map (\<lambda>t. fst (snd t)) ts) = map (\<lambda>t. (fst t, fst (snd t))) ts"
    by (induction ts) simp_all
  then show ?thesis by (simp add: pairs_def appended_def)
qed

lemma cands_set:
  "set (entry_of (build_cdict (map (cell lat) d2 # map (shift_pts (map (cell lat) d2)) nvs)) key)
     = {j. j < length d2 \<and> (cell lat (d2 ! j) = key
             \<or> list_ex (\<lambda>nv. map2 (+) (cell lat (d2 ! j)) nv = key) nvs)}"
  using cd_set_build [of "map (cell lat) d2 # map (shift_pts (map (cell lat) d2)) nvs" key]
  by (auto simp: cd_set_def shift_pts_def list_ex_iff)

lemma fst_kept: "t \<in> set (kept d1 d2 thresh cands is) \<Longrightarrow> fst t \<in> set is"
  by (auto simp: set_kept)

lemma distinct_kept:
  assumes "distinct is" "\<And>i. distinct (cands i)"
  shows "distinct (map (\<lambda>t. (fst t, fst (snd t))) (kept d1 d2 thresh cands is))"
  using assms(1)
proof (induction "is")
  case Nil
  show ?case by (simp add: kept_def)
next
  case (Cons i "is")
  have row: "distinct (map (\<lambda>t. (fst t, fst (snd t))) (kept_row d1 d2 thresh i (cands i)))"
    using assms(2) [of i] by (simp add: kept_row_def comp_def distinct_map inj_on_def)
  have "fst t \<noteq> i" if "t \<in> set (kept d1 d2 thresh cands is)" for t
    using fst_kept [OF that] Cons.prems by auto
  moreover have "fst t = i" if "t \<in> set (kept_row d1 d2 thresh i (cands i))" for t
    using that by (auto simp: kept_row_def)
  ultimately have disj:
    "(\<lambda>t. (fst t, fst (snd t))) ` set (kept_row d1 d2 thresh i (cands i))
       \<inter> (\<lambda>t. (fst t, fst (snd t))) ` set (kept d1 d2 thresh cands is) = {}"
    by fastforce
  from Cons have "distinct (map (\<lambda>t. (fst t, fst (snd t))) (kept d1 d2 thresh cands is))"
    by simp
  with row disj show ?case by (simp add: kept_Cons)
qed

lemma hash_join_kept:
  assumes "uniform (ndim lat) d1" "uniform (ndim lat) d2"
  shows "\<exists>ts. hash_join lat d1 d2 tolerance = Inr (appended ([], [], []) ts)
              \<and> set ts = join_set lat tolerance d1 d2
              \<and> distinct (map (\<lambda>t. (fst t, fst (snd t))) ts)"
proof -
  let ?cd = "build_cdict (map (cell lat) d2 # map (shift_pts (map (cell lat) d2)) (neighborhood lat 2.1 False))"
  let ?cands = "\<lambda>i. entry_of ?cd (map (cell lat) d1 ! i)"
  let ?ts = "kept d1 d2 (tolerance\<^sup>2) ?cands [0..<length d1]"
  have inr: "\<And>key. list_all (\<lambda>j. j < length d2) (entry_of ?cd key)"
  proof -
    fix key
    have "set (entry_of ?cd key) \<subseteq> {j. j < length d2}"
      using cd_set_build [of "map (cell lat) d2 # map (shift_pts (map (cell lat) d2)) (neighborhood lat 2.1 False)" key]
      by (auto simp: cd_set_def shift_pts_def)
    then show "list_all (\<lambda>j. j < length d2) (entry_of ?cd key)"
      by (auto simp: list_all_iff)
  qed
  have idx: "list_all (\<lambda>i. i < length d1) [0..<length d1]" by (simp add: list_all_iff)
  have run: "hash_join lat d1 d2 tolerance = Inr (appended ([], [], []) ?ts)"
    by (simp add: hash_join_def quantize_uniform [OF assms(1)] quantize_uniform [OF assms(2)]
        probe_rows_kept [OF assms idx inr])
  have "set ?ts = join_set lat tolerance d1 d2"
    by (auto simp: set_kept join_set_def cands_set near_def)
  moreover have "distinct (map (\<lambda>t. (fst t, fst (snd t))) ?ts)"
    using cd_distinct_build [of "map (cell lat) d2 # map (shift_pts (map (cell lat) d2)) (neighborhood lat 2.1 False)"]
    by (intro distinct_kept) (simp_all add: cd_distinct_def)
  ultimately show ?thesis using run by blast
qed

lemma dsq_commute: "dsq p q = dsq q p"
proof -
  have "(\<Sum>(a, b)\<leftarrow>zip p q. (a - b)\<^sup>2) = (\<Sum>(a, b)\<leftarrow>zip q p. (a - b)\<^sup>2)"
    by (induction p q rule: list_induct2') (simp_all add: power2_commute)
  then show ?thesis by (simp add: dsq_def)
qed

lemma length_cell: "length (cell lat p) = length p"
  by (simp add: cell_def)

lemma sq_norm_uminus: "sq_norm (map uminus v) = sq_norm v"
  by (simp add: sq_norm_def comp_def)

lemma neighborhood_uminus:
  assumes "nv \<in> set (neighborhood lat r io)"
  shows "map uminus nv \<in> set (neighborhood lat r io)"
proof -
  have "map uminus nv = replicate (ndim lat) 0 \<Longrightarrow> nv = replicate (ndim lat) 0"
  proof -
    assume a: "map uminus nv = replicate (ndim lat) 0"
    have "map uminus (map uminus nv) = nv" by (simp add: comp_def)
    with a show ?thesis by (simp add: map_replicate)
  qed
  with assms show ?thesis
    by (auto simp: neighborhood_set sq_norm_uminus list_all_iff)
qed

lemma shift_back:
  fixes w nv :: "int list"
  assumes "length w = length nv"
  shows "map2 (+) (map2 (+) w nv) (map uminus nv) = w"
  using assms by (induction w nv rule: list_induct2) simp_all

lemma near_sym:
  assumes "near lat v w" "length w = ndim lat"
  shows "near lat w v"
proof (cases "w = v")
  case True
  then show ?thesis by (simp add: near_def)
next
  case False
  with assms(1) obtain nv where nv: "nv \<in> set (neighborhood lat 2.1 False)" and v: "map2 (+) w nv = v"
    by (auto simp: near_def list_ex_iff)
  from nv have "length nv = ndim lat" by (simp add: neighborhood_set)
  with assms(2) have "map2 (+) (map2 (+) w nv) (map uminus nv) = w"
    by (simp add: shift_back)
  with v have "map2 (+) v (map uminus nv) = w" by simp
  with neighborhood_uminus [OF nv] show ?thesis
    by (auto simp: near_def list_ex_iff)
qed

lemma join_set_swap:
  assumes "uniform (ndim lat) d1" "uniform (ndim lat) d2"
  shows "swap3 ` join_set lat tolerance d2 d1 = join_set lat tolerance d1 d2"
proof -
  have sym: "near lat (cell lat (a ! i)) (cell lat (b ! j)) \<Longrightarrow> near lat (cell lat (b ! j)) (cell lat (a ! i))"
    if "uniform (ndim lat) a" "uniform (ndim lat) b" "i < length a" "j < length b" for a b i j
    using that by (auto intro!: near_sym simp: length_cell uniform_nth)
  show ?thesis
  proof (rule set_eqI)
    fix t :: "nat \<times> nat \<times> real"
    obtain i j x where t: "t = (i, j, x)" by (cases t)
    show "t \<in> swap3 ` join_set lat tolerance d2 d1 \<longleftrightarrow> t \<in> join_set lat tolerance d1 d2"
      using sym [OF assms] sym [OF assms(2,1)]
      by (auto simp: t join_set_def swap3_def image_iff dsq_commute)
  qed
qed

lemma unswitch_appended:
  "unswitch True (appended ([], [], []) ts) = appended ([], [], []) (map swap3 ts)"
  by (simp add: appended_def swap3_def comp_def)

lemma match_arrays:
  assumes "uniform d A" "uniform d B" "0 < tolerance"
    and "hash_join \<lparr>ndim = d, scale = 1.3 * tolerance\<rparr>
           (if length A < length B then B else A)
           (if length A < length B then A else B) tolerance = Inr r"
  shows "match (NdArray2 d A) (NdArray2 d B) tolerance None = Inr (unswitch (length A < length B) r)"
proof -
  have cl: "cols_loop (map Name [0..<d]) [] [] = (map Name [0..<d], map Name [0..<d])"
    using cols_loop_names [of "[0..<d]" "[]" "[]"] by simp
  have sel: "select_cols \<lparr>columns = map Name [0..<d], rows = R\<rparr> (map Name [0..<d]) = Inr R"
    if "uniform d R" for R
    using select_cols_all [of "\<lparr>columns = map Name [0..<d], rows = R\<rparr>"] that
    by (simp add: distinct_map inj_on_def)
  show ?thesis
    using assms(3,4)
    by (simp add: match_def Let_def cl ALattice_def sel [OF assms(1)] sel [OF assms(2)]
        split: if_splits)
qed

lemma match_arrays_set:
  assumes "uniform d A" "uniform d B" "0 < tolerance"
  shows "\<exists>ts. match (NdArray2 d A) (NdArray2 d B) tolerance None = Inr (appended ([], [], []) ts)
              \<and> set ts = join_set \<lparr>ndim = d, scale = 1.3 * tolerance\<rparr> tolerance A B
              \<and> distinct (map (\<lambda>t. (fst t, fst (snd t))) ts)"
proof -
  let ?lat = "\<lparr>ndim = d, scale = 1.3 * tolerance\<rparr>"
  have uA: "uniform (ndim ?lat) A" and uB: "uniform (ndim ?lat) B" using assms by simp_all
  show ?thesis
  proof (cases "length A < length B")
    case True
    from hash_join_kept [OF uB uA, of tolerance] obtain ts
      where ts: "hash_join ?lat B A tolerance = Inr (appended ([], [], []) ts)"
        and set: "set ts = join_set ?lat tolerance B A"
        and dist: "distinct (map (\<lambda>t. (fst t, fst (snd t))) ts)" by blast
    have "match (NdArray2 d A) (NdArray2 d B) tolerance None
            = Inr (unswitch (length A < length B) (appended ([], [], []) ts))"
      by (rule match_arrays [OF assms]) (simp only: True if_True ts)
    then have "match (NdArray2 d A) (NdArray2 d B) tolerance None
            = Inr (appended ([], [], []) (map swap3 ts))"
      by (simp only: True unswitch_appended)
    moreover have "set (map swap3 ts) = join_set ?lat tolerance A B"
      using join_set_swap [OF uA uB, of tolerance] set by simp
    moreover have "distinct (map (\<lambda>t. (fst t, fst (snd t))) (map swap3 ts))"
    proof -
      have "map (\<lambda>t. (fst t, fst (snd t))) (map swap3 ts)
              = map prod.swap (map (\<lambda>t. (fst t, fst (snd t))) ts)"
        by (simp add: swap3_def)
      with dist show ?thesis by (simp add: distinct_map del: map_map)
    qed
    ultimately show ?thesis by blast
  next
    case False
    from hash_join_kept [OF uA uB, of tolerance] obtain ts
      where ts: "hash_join ?lat A B tolerance = Inr (appended ([], [], []) ts)"
        and set: "set ts = join_set ?lat tolerance A B"
        and dist: "distinct (map (\<lambda>t. (fst t, fst (snd t))) ts)" by blast
    have "match (NdArray2 d A) (NdArray2 d B) tolerance None
            = Inr (unswitch (length A < length B) (appended ([], [], []) ts))"
      by (rule match_arrays [OF assms]) (simp only: False if_False ts)
    then have "match (NdArray2 d A) (NdArray2 d B) tolerance None = Inr (appended ([], [], []) ts)"
      by (simp only: False appended_def unswitch.simps if_False)
    with set dist show ?thesis by blast
  qed
qed

section \<open>Coverage of the neighbourhood\<close>

lemma brute_match_kept:
  assumes "uniform d d1" "uniform d d2"
  shows "\<exists>ts. brute_match d1 d2 tolerance = Inr (appended ([], [], []) ts)
              \<and> set ts = brute_set tolerance d1 d2"
proof -
  let ?ts = "kept d1 d2 (tolerance\<^sup>2) (\<lambda>i. [0..<length d2]) [0..<length d1]"
  have idx: "list_all (\<lambda>i. i < length d1) [0..<length d1]" by (simp add: list_all_iff)
  have "brute_match d1 d2 tolerance = Inr (appended ([], [], []) ?ts)"
    by (simp add: brute_match_def brute_rows_kept [OF assms idx])
  moreover have "set ?ts = brute_set tolerance d1 d2"
    by (auto simp: set_kept brute_set_def)
  ultimately show ?thesis by blast
qed






lemma wf_array_uniform: "wf_data (NdArray2 d rs) = uniform d rs"
  by (simp add: uniform_def)

section \<open>The sign of the tolerance, and empty collections\<close>

lemma brute_rows_sign:
  "brute_rows d1 d2 (- tolerance) is acc = brute_rows d1 d2 tolerance is acc"
  by (induction "is" arbitrary: acc) (simp_all split: sum.splits)

lemma brute_rows_abs:
  "brute_rows d1 d2 \<bar>tolerance\<bar> is acc = brute_rows d1 d2 tolerance is acc"
  by (induction "is" arbitrary: acc) (simp_all split: sum.splits)

lemma dsq_nonneg: "0 \<le> dsq p q"
  unfolding dsq_def by (rule sum_list_nonneg) auto

lemma dsq_zero_iff:
  assumes "length p = length q"
  shows "dsq p q = 0 \<longleftrightarrow> p = q"
  using assms
proof (induction p q rule: list_induct2)
  case Nil
  show ?case by (simp add: dsq_def)
next
  case (Cons a p b q)
  have "dsq (a # p) (b # q) = (a - b)\<^sup>2 + dsq p q" by (simp add: dsq_def)
  moreover have "(a - b)\<^sup>2 + dsq p q = 0 \<longleftrightarrow> (a - b)\<^sup>2 = 0 \<and> dsq p q = 0"
    by (rule add_nonneg_eq_0_iff [OF zero_le_power2 dsq_nonneg])
  ultimately show ?case using Cons.IH by simp
qed

lemma cols_loop_plain:
  "list_all is_plain cs \<Longrightarrow> cols_loop cs cols1 cols2 = (cols1 @ cs, cols2 @ cs)"
proof (induction cs arbitrary: cols1 cols2)
  case Nil
  show ?case by simp
next
  case (Cons c cs)
  then show ?case by (cases c) simp_all
qed

lemma col_pos_member: "c \<in> set cs \<Longrightarrow> \<exists>p. col_pos cs c = Some p"
  by (induction cs) auto

lemma those_all_Some:
  "list_all (\<lambda>x. x \<noteq> None) xs \<Longrightarrow> \<exists>ys. those xs = Some ys \<and> length ys = length xs"
  by (induction xs) (auto split: option.splits)

lemma select_cols_present:
  assumes "set cols \<subseteq> set (columns f)"
  shows "\<exists>vals. select_cols f cols = Inr vals \<and> length vals = length (rows f)
               \<and> uniform (length cols) vals"
proof -
  have "list_all (\<lambda>x. x \<noteq> None) (map (col_pos (columns f)) cols)"
    using assms col_pos_member [of _ "columns f"] by (fastforce simp: list_all_iff)
  from those_all_Some [OF this] obtain ps
    where ps: "those (map (col_pos (columns f)) cols) = Some ps" "length ps = length cols"
    by auto
  then show ?thesis
    by (simp add: select_cols_def uniform_def list_all_iff)
qed

lemma probe_rows_empty_dict:
  "probe_rows Map.empty long_pts d1vals d2vals dthresh is acc = Inr acc"
  by (induction "is") simp_all

lemma build_cdict_no_points: "build_cdict ([] # map (shift_pts []) nvs) = Map.empty"
proof -
  have "fold (\<lambda>atrans cdict.
             fold (\<lambda>pvec_idx cdict. cdict_add cdict (atrans ! pvec_idx) pvec_idx)
               [0..<length atrans] cdict) (map (shift_pts []) nvs) m = m" for m
    by (induction nvs) (simp_all add: shift_pts_def)
  then show ?thesis by (simp add: build_cdict_def)
qed

lemma hash_join_no_short:
  assumes "uniform (ndim qlat) d1vals"
  shows "hash_join qlat d1vals [] tolerance = Inr ([], [], [])"
proof -
  have "quantize qlat [] = Inr []" by (simp add: quantize_def)
  then show ?thesis
    by (simp add: hash_join_def quantize_uniform [OF assms] build_cdict_no_points
        probe_rows_empty_dict)
qed

section \<open>The sparse matrix and the indexer\<close>

lemma dsq_self: "dsq p p = 0"
  by (induction p) (simp_all add: dsq_def)

lemma near_refl: "near lat v v"
  by (simp add: near_def)

lemma entries_appended:
  "coo_matrix (map f (snd (snd (appended ([], [], []) ts)))) (fst (appended ([], [], []) ts))
       (fst (snd (appended ([], [], []) ts))) sh
     = \<lparr>shape = sh, entries = map (\<lambda>t. (fst t, fst (snd t), f (snd (snd t)))) ts\<rparr>"
proof -
  have "zip (map fst ts) (zip (map (\<lambda>t. fst (snd t)) ts) (map f (map (\<lambda>t. snd (snd t)) ts)))
          = map (\<lambda>t. (fst t, fst (snd t), f (snd (snd t)))) ts"
    by (induction ts) simp_all
  then show ?thesis by (simp add: coo_matrix_def appended_def)
qed

lemma in_range_append:
  "in_range n matching_dict \<Longrightarrow> j < n \<Longrightarrow> in_range n (dict_append matching_dict xtup j)"
  by (auto simp: in_range_def dict_append_def entry_of_def split: option.splits)

lemma in_range_fold_idx:
  "in_range n matching_dict \<Longrightarrow> list_all (\<lambda>j. j < n) js
     \<Longrightarrow> in_range n (fold (\<lambda>xq_idx matching_dict. dict_append matching_dict (key_of xq_idx) xq_idx)
                        js matching_dict)"
  by (induction js arbitrary: matching_dict) (simp_all add: in_range_append)

lemma in_range_fold:
  "in_range n matching_dict
     \<Longrightarrow> in_range n (fold (\<lambda>shift_vec matching_dict.
                          fold (\<lambda>xq_idx matching_dict.
                                  dict_append matching_dict (key_of xq_idx shift_vec) xq_idx)
                            [0..<n] matching_dict)
                        vecs matching_dict)"
proof (induction vecs arbitrary: matching_dict)
  case Nil
  then show ?case by simp
next
  case (Cons v vecs)
  have "list_all (\<lambda>j. j < n) [0..<n]" by (simp add: list_all_iff)
  from in_range_fold_idx [OF Cons.prems this, of "\<lambda>i. key_of i v"] Cons.IH
  show ?case by simp
qed

lemma potential_matches_in_range:
  assumes "in_range n matching_dict"
  shows "list_all (\<lambda>(idx1, idx2). idx1 < length xquant \<and> idx2 < n)
           (potential_matches matching_dict xquant)"
  using assms
  by (auto simp: potential_matches_def in_range_def list_all_iff entry_of_def
      split: option.splits)

lemma clean_matches_filter:
  assumes "uniform d x" "uniform d ref_x"
    and "list_all (\<lambda>(idx1, idx2). idx1 < length x \<and> idx2 < length ref_x) cands"
  shows "clean_matches x ref_x tol_sq cands (cleaned_matches, distances)
         = Inr (cleaned_matches
                  @ filter (\<lambda>(idx1, idx2). dsq (x ! idx1) (ref_x ! idx2) < tol_sq) cands,
                distances
                  @ map (\<lambda>(idx1, idx2). dsq (x ! idx1) (ref_x ! idx2))
                      (filter (\<lambda>(idx1, idx2). dsq (x ! idx1) (ref_x ! idx2) < tol_sq) cands))"
  using assms(3)
proof (induction cands arbitrary: cleaned_matches distances)
  case Nil
  show ?case by simp
next
  case (Cons c cands)
  obtain a b where c: "c = (a, b)" by (cases c)
  from Cons.prems have ab: "a < length x" "b < length ref_x"
    and rest: "list_all (\<lambda>(idx1, idx2). idx1 < length x \<and> idx2 < length ref_x) cands"
    by (simp_all add: c)
  have "length (x ! a) = length (ref_x ! b)"
    using assms(1,2) ab by (simp add: uniform_nth)
  then have sd: "sq_dist (x ! a) (ref_x ! b) = Inr (dsq (x ! a) (ref_x ! b))"
    by (rule sq_dist_same_length)
  show ?case by (simp add: c sd Cons.IH [OF rest])
qed

section \<open>The matcher over any lattice\<close>

lemma match_is_match_on_spec_lattice:
  "match data1 data2 tolerance cols = match_on spec_lattice data1 data2 tolerance cols"
proof -
  have "hash_join lat d1 d2 t
          = hash_join_on \<lparr>quantize_of = quantize lat, neighborhood_of = neighborhood lat\<rparr> d1 d2 t"
    for lat d1 d2 t
    by (simp add: hash_join_def hash_join_on_def split: sum.splits)
  then show ?thesis
    by (simp add: match_def match_on_def spec_lattice_def Let_def ALattice_def split: sum.splits)
qed







section \<open>Evaluation on small inputs\<close>

lemma neighborhood_plane:
  "neighborhood \<lparr>ndim = 2, scale = s\<rparr> 2.1 False =
     [[- 2, 0], [- 1, - 1], [- 1, 0], [- 1, 1], [0, - 2], [0, - 1], [0, 1], [0, 2],
      [1, - 1], [1, 0], [1, 1], [2, 0]]"
  by (simp add: neighborhood_def sq_norm_def numeral_2_eq_2 upto.simps)

lemma quantize_scenario_1:
  "quantize \<lparr>ndim = 2, scale = 1.3 * 1\<rparr> [[0, 0], [5, 5]] = Inr [[0, 0], [4, 4]]"
  by (simp add: quantize_def round_def)

lemma quantize_scenario_2:
  "quantize \<lparr>ndim = 2, scale = 1.3 * 1\<rparr> [[0.1, 0.1], [10, 10]] = Inr [[0, 0], [8, 8]]"
  by (simp add: quantize_def round_def)

lemma hash_join_scenario:
  "hash_join \<lparr>ndim = 2, scale = 1.3 * 1\<rparr> [[0, 0], [5, 5]] [[0.1, 0.1], [10, 10]] 1
     = Inr ([0], [0], [sqrt (1 / 50)])"
  unfolding hash_join_def quantize_scenario_1 quantize_scenario_2 neighborhood_plane
  by (simp add: build_cdict_def shift_pts_def cdict_add_def sq_dist_def np_sub_def
      power2_eq_square)

lemma sqrt_fiftieth: "\<bar>sqrt (1 / 50) - 0.1414\<bar> < (0.0001 :: real)"
proof -
  have "(0.1414 :: real) < sqrt (1 / 50)"
    by (rule real_less_rsqrt) (simp add: power2_eq_square)
  moreover have "sqrt (1 / 50) < (0.1415 :: real)"
    by (rule real_less_lsqrt) (simp_all add: power2_eq_square)
  ultimately show ?thesis by simp
qed

lemma neighborhood_line:
  "neighborhood \<lparr>ndim = Suc 0, scale = s\<rparr> 2 True = [[- 2], [- 1], [0], [1], [2]]"
  by (simp add: neighborhood_def sq_norm_def upto.simps)

lemma indexer_of_one_point:
  "MatchingIndexer 1 [[5]] 1 =
     Inr \<lparr>ix_x = [[5]], ix_tolerance = 1, ix_lat = \<lparr>ndim = 1, scale = 1.3\<rparr>,
          ix_neighborhood_vecs = [[- 2], [- 1], [0], [1], [2]],
          ix_matching_dict = [[2] \<mapsto> [0], [3] \<mapsto> [0], [4] \<mapsto> [0], [5] \<mapsto> [0], [6] \<mapsto> [0]]\<rparr>"
  by (simp add: MatchingIndexer_def ALattice_def quantize_def round_def neighborhood_line
      dict_append_def)

lemma indexer_match_far_query:
  "indexer_match (projr (MatchingIndexer 1 [[5]] 1)) [[0]] = Inr ([], [])"
  unfolding indexer_of_one_point
  by (simp add: indexer_match_def quantize_def round_def potential_matches_def)

text \<open>
  A query point at a distance equal to the tolerance from the reference point: the
  indexer drops the pair, the module-level function keeps it.
\<close>

lemma indexer_of_origin:
  "MatchingIndexer 1 [[0]] 1 =
     Inr \<lparr>ix_x = [[0]], ix_tolerance = 1, ix_lat = \<lparr>ndim = 1, scale = 1.3\<rparr>,
          ix_neighborhood_vecs = [[- 2], [- 1], [0], [1], [2]],
          ix_matching_dict =
            [[- 2] \<mapsto> [0], [- 1] \<mapsto> [0], [0] \<mapsto> [0], [1] \<mapsto> [0], [2] \<mapsto> [0]]\<rparr>"
  by (simp add: MatchingIndexer_def ALattice_def quantize_def round_def neighborhood_line
      dict_append_def)

lemma boundary_pair_dropped_by_indexer:
  "indexer_match (projr (MatchingIndexer 1 [[0]] 1)) [[1]] = Inr ([], [])"
  unfolding indexer_of_origin
  by (simp add: indexer_match_def quantize_def round_def potential_matches_def sq_dist_def
      np_sub_def)

lemma neighborhood_line_without_origin:
  "neighborhood \<lparr>ndim = 1, scale = s\<rparr> 2.1 False = [[- 2], [- 1], [1], [2]]"
  by (simp add: neighborhood_def sq_norm_def upto.simps)

lemma boundary_pair_kept_by_hash_join:
  "hash_join \<lparr>ndim = 1, scale = 1.3 * 1\<rparr> [[1]] [[0]] 1 = Inr ([0], [0], [1])"
proof -
  have "quantize \<lparr>ndim = 1, scale = 1.3 * 1\<rparr> [[1]] = Inr [[1]]"
    by (simp add: quantize_def round_def)
  moreover have "quantize \<lparr>ndim = 1, scale = 1.3 * 1\<rparr> [[0]] = Inr [[0]]"
    by (simp add: quantize_def round_def)
  ultimately show ?thesis
    unfolding hash_join_def neighborhood_line_without_origin
    by (simp add: build_cdict_def shift_pts_def cdict_add_def sq_dist_def np_sub_def)
qed

lemma boundary_pair_kept_by_match:
  "match (NdArray2 1 [[1]]) (NdArray2 1 [[0]]) 1 None = Inr ([0], [0], [1])"
  using match_arrays [of 1 "[[1]]" "[[0]]" 1 "([0], [0], [1])"] boundary_pair_kept_by_hash_join
  by (simp add: uniform_def)

section \<open>The claims\<close>



text \<open>
  C2. A pair entry of \<^verbatim>\<open>cols\<close> should give one column to each collection: its first
  identifier to \<^verbatim>\<open>data1\<close>, its second to \<^verbatim>\<open>data2\<close>. The loop of lines 117-124 has no
  \<^verbatim>\<open>else\<close>: for the documented example \<^verbatim>\<open>cols = [(0, 4), 3]\<close> it appends the tuple
  itself after the identifier, so each list has three labels for two entries, and the
  selection of the columns raises \<^verbatim>\<open>KeyError\<close> on tables made from arrays, which have no
  column labelled by a tuple. First column of the first row against the fifth of the
  second, and the fourth of both, would have matched here.
\<close>

theorem cols_pair_entry_also_appended_whole:
  "cols_loop [Tuple (Name 0) (Name 4), Name 3] [] [] =
     ([Name 0, Tuple (Name 0) (Name 4), Name 3], [Name 4, Tuple (Name 0) (Name 4), Name 3])
   \<and> match (NdArray2 5 [[1, 2, 3, 4, 5]]) (NdArray2 5 [[9, 9, 9, 4, 1]]) 1
        (Some [Tuple (Name 0) (Name 4), Name 3]) = Inl KeyError"
  by (simp add: match_def Let_def ALattice_def select_cols_def upt_rec)

text \<open>
  C3. Whatever the collections and the columns, \<^verbatim>\<open>match\<close> with a tolerance that is not
  positive raises \<^verbatim>\<open>NotImplementedError\<close>: it returns no sequences, and it does not
  fall back to matching equal rows. The test of line 126 comes after the tables and the
  column lists are made and before any column is selected or any point quantised.
\<close>

theorem match_refuses_nonpositive_tolerance:
  "tolerance \<le> 0 \<Longrightarrow> match data1 data2 tolerance cols = Inl NotImplementedError"
  by (simp add: match_def Let_def)

theorem match_refuses_nonpositive_tolerance_witness:
  "(0 :: real) \<le> 0
   \<and> match (NdArray2 2 [[0, 0], [5, 5]]) (NdArray2 2 [[0, 0], [5, 5]]) 0 None
       = Inl NotImplementedError"
  using match_refuses_nonpositive_tolerance
          [of 0 "NdArray2 2 [[0, 0], [5, 5]]" "NdArray2 2 [[0, 0], [5, 5]]" None]
  by simp

text \<open>
  C4. The two verifications. \<^verbatim>\<open>MatchingIndexer.match\<close> returns, of its candidate pairs
  (the dictionary's entries for the cell of each query point), exactly those with squared
  distance strictly below \<open>tolerance\<^sup>2\<close>. The module-level \<^verbatim>\<open>match\<close> returns, of its
  candidate pairs (the pairs of points in near cells), exactly those with squared
  distance at most \<open>tolerance\<^sup>2\<close>. A pair at a distance equal to the tolerance is
  where the two differ (\<open>boundary_pair_dropped_by_indexer\<close>,
  \<open>boundary_pair_kept_by_match\<close>).
\<close>

theorem indexer_strict_match_nonstrict:
  assumes "uniform d ref_x" and "uniform d x" and "0 < tolerance"
  shows "(\<exists>self cleaned distances.
            MatchingIndexer d ref_x tolerance = Inr self
          \<and> indexer_match self x = Inr (cleaned, distances)
          \<and> cleaned = filter (\<lambda>(idx1, idx2). dsq (x ! idx1) (ref_x ! idx2) < tolerance\<^sup>2)
                         (potential_matches (ix_matching_dict self) (map (cell (ix_lat self)) x)))
       \<and> (\<exists>r. match (NdArray2 d x) (NdArray2 d ref_x) tolerance None = Inr r
             \<and> pairs r = {(i, j). i < length x \<and> j < length ref_x
                             \<and> near \<lparr>ndim = d, scale = 1.3 * tolerance\<rparr>
                                  (cell \<lparr>ndim = d, scale = 1.3 * tolerance\<rparr> (x ! i))
                                  (cell \<lparr>ndim = d, scale = 1.3 * tolerance\<rparr> (ref_x ! j))
                             \<and> dsq (x ! i) (ref_x ! j) \<le> tolerance\<^sup>2})"
proof
  let ?lat = "\<lparr>ndim = d, scale = tolerance * 1.3\<rparr>"
  let ?dict = "fold (\<lambda>shift_vec matching_dict.
                         fold (\<lambda>xq_idx matching_dict.
                                 dict_append matching_dict (map2 (+) (map (cell ?lat) ref_x ! xq_idx) shift_vec) xq_idx)
                           [0..<length ref_x] matching_dict)
                   (neighborhood ?lat 2.0 True) Map.empty"
  let ?self = "\<lparr>ix_x = ref_x, ix_tolerance = tolerance, ix_lat = ?lat,
               ix_neighborhood_vecs = neighborhood ?lat 2.0 True, ix_matching_dict = ?dict\<rparr>"
  have uref: "uniform (ndim ?lat) ref_x" and ux: "uniform (ndim ?lat) x" using assms by simp_all
  have init: "MatchingIndexer d ref_x tolerance = Inr ?self"
    using assms(3) quantize_uniform [OF uref] by (simp add: MatchingIndexer_def ALattice_def)
  have "in_range (length ref_x) Map.empty" by (simp add: in_range_def entry_of_def)
  from in_range_fold [OF this, of "\<lambda>i v. map2 (+) (map (cell ?lat) ref_x ! i) v" "neighborhood ?lat 2.0 True"]
  have rng: "in_range (length ref_x) ?dict" .
  let ?cands = "potential_matches ?dict (map (cell ?lat) x)"
  have "list_all (\<lambda>(idx1, idx2). idx1 < length x \<and> idx2 < length ref_x) ?cands"
    using potential_matches_in_range [OF rng, of "map (cell ?lat) x"] by simp
  from clean_matches_filter [OF assms(2,1) this, of "tolerance\<^sup>2" "[]" "[]"]
  have "indexer_match ?self x
          = Inr (filter (\<lambda>(idx1, idx2). dsq (x ! idx1) (ref_x ! idx2) < tolerance\<^sup>2) ?cands,
                 map sqrt (map (\<lambda>(idx1, idx2). dsq (x ! idx1) (ref_x ! idx2))
                   (filter (\<lambda>(idx1, idx2). dsq (x ! idx1) (ref_x ! idx2) < tolerance\<^sup>2) ?cands)))"
    using quantize_uniform [OF ux] by (simp add: indexer_match_def)
  with init
  show "\<exists>self cleaned distances.
            MatchingIndexer d ref_x tolerance = Inr self
          \<and> indexer_match self x = Inr (cleaned, distances)
          \<and> cleaned = filter (\<lambda>(idx1, idx2). dsq (x ! idx1) (ref_x ! idx2) < tolerance\<^sup>2)
                         (potential_matches (ix_matching_dict self) (map (cell (ix_lat self)) x))"
    by (intro exI [of _ ?self]) simp
next
  let ?lat = "\<lparr>ndim = d, scale = 1.3 * tolerance\<rparr>"
  from match_arrays_set [OF assms(2,1,3)] obtain ts
    where m: "match (NdArray2 d x) (NdArray2 d ref_x) tolerance None = Inr (appended ([], [], []) ts)"
      and ts: "set ts = join_set ?lat tolerance x ref_x" by blast
  have "pairs (appended ([], [], []) ts)
          = {(i, j). i < length x \<and> j < length ref_x
                      \<and> near ?lat (cell ?lat (x ! i)) (cell ?lat (ref_x ! j))
                      \<and> dsq (x ! i) (ref_x ! j) \<le> tolerance\<^sup>2}"
    by (auto simp: pairs_appended ts join_set_def image_iff)
  with m show "\<exists>r. match (NdArray2 d x) (NdArray2 d ref_x) tolerance None = Inr r
             \<and> pairs r = {(i, j). i < length x \<and> j < length ref_x
                             \<and> near ?lat (cell ?lat (x ! i)) (cell ?lat (ref_x ! j))
                             \<and> dsq (x ! i) (ref_x ! j) \<le> tolerance\<^sup>2}"
    by blast
qed

theorem indexer_strict_match_nonstrict_witness:
  "uniform 1 [[0 :: real]] \<and> uniform 1 [[1 :: real]] \<and> (0 :: real) < 1
   \<and> (\<exists>self cleaned distances.
            MatchingIndexer 1 [[0]] 1 = Inr self
          \<and> indexer_match self [[1]] = Inr (cleaned, distances)
          \<and> cleaned = filter (\<lambda>(idx1, idx2). dsq ([[1]] ! idx1) ([[0]] ! idx2) < 1\<^sup>2)
                         (potential_matches (ix_matching_dict self) (map (cell (ix_lat self)) [[1]])))
   \<and> (\<exists>r. match (NdArray2 1 [[1]]) (NdArray2 1 [[0]]) 1 None = Inr r
         \<and> pairs r = {(i, j). i < length [[1 :: real]] \<and> j < length [[0 :: real]]
                         \<and> near \<lparr>ndim = 1, scale = 1.3 * 1\<rparr>
                              (cell \<lparr>ndim = 1, scale = 1.3 * 1\<rparr> ([[1]] ! i))
                              (cell \<lparr>ndim = 1, scale = 1.3 * 1\<rparr> ([[0]] ! j))
                         \<and> dsq ([[1]] ! i) ([[0]] ! j) \<le> 1\<^sup>2})"
  using indexer_strict_match_nonstrict [of 1 "[[0]]" "[[1]]" 1]
  by (simp add: uniform_def)

text \<open>
  C5. For two arrays of the same width and a positive tolerance, \<^verbatim>\<open>match(A, B, tol)\<close>
  and \<^verbatim>\<open>match(B, A, tol)\<close> both return, and the matches of the second call are those
  of the first with the two indices exchanged, at the same distances.
\<close>

theorem match_swap_invariance:
  assumes "wf_data (NdArray2 d data1)" and "wf_data (NdArray2 d data2)" and "0 < tolerance"
  shows "\<exists>r r'. match (NdArray2 d data1) (NdArray2 d data2) tolerance None = Inr r
               \<and> match (NdArray2 d data2) (NdArray2 d data1) tolerance None = Inr r'
               \<and> matches r' = {(j, i, x) | i j x. (i, j, x) \<in> matches r}"
proof -
  let ?lat = "\<lparr>ndim = d, scale = 1.3 * tolerance\<rparr>"
  have u1: "uniform d data1" and u2: "uniform d data2"
    using assms(1,2) by (simp_all add: uniform_def)
  from match_arrays_set [OF u1 u2 assms(3)] obtain ts
    where m: "match (NdArray2 d data1) (NdArray2 d data2) tolerance None = Inr (appended ([], [], []) ts)"
      and ts: "set ts = join_set ?lat tolerance data1 data2" by blast
  from match_arrays_set [OF u2 u1 assms(3)] obtain us
    where m': "match (NdArray2 d data2) (NdArray2 d data1) tolerance None = Inr (appended ([], [], []) us)"
      and us: "set us = join_set ?lat tolerance data2 data1" by blast
  have "uniform (ndim ?lat) data1" "uniform (ndim ?lat) data2" using u1 u2 by simp_all
  from join_set_swap [OF this, of tolerance]
  have "set ts = swap3 ` set us" by (simp add: ts us)
  then have "set us = {(j, i, x) | i j x. (i, j, x) \<in> set ts}"
    by (auto simp: swap3_def image_iff) force+
  then have "matches (appended ([], [], []) us)
        = {(j, i, x) | i j x. (i, j, x) \<in> matches (appended ([], [], []) ts)}"
    by (simp add: matches_appended)
  with m m' show ?thesis by blast
qed

theorem match_swap_invariance_witness:
  "wf_data (NdArray2 1 [[0], [5]]) \<and> wf_data (NdArray2 1 [[1 / 2]]) \<and> (0 :: real) < 1
   \<and> (\<exists>r r'. match (NdArray2 1 [[0], [5]]) (NdArray2 1 [[1 / 2]]) 1 None = Inr r
         \<and> match (NdArray2 1 [[1 / 2]]) (NdArray2 1 [[0], [5]]) 1 None = Inr r'
         \<and> matches r' = {(j, i, x) | i j x. (i, j, x) \<in> matches r})"
  using match_swap_invariance [of 1 "[[0], [5]]" "[[1 / 2]]" 1] by simp

text \<open>
  C6. The concrete scenario: \<^verbatim>\<open>data1 = [[0,0],[5,5]]\<close>, \<^verbatim>\<open>data2 = [[0.1,0.1],[10,10]]\<close>
  and tolerance 1 give the single pair (0, 0), at the distance \<open>sqrt 0.02\<close>, which is
  0.1414 to four places; index 1 of either collection is in no pair.
\<close>

theorem match_concrete_scenario:
  "match (NdArray2 2 [[0, 0], [5, 5]]) (NdArray2 2 [[0.1, 0.1], [10, 10]]) 1 None
     = Inr ([0], [0], [sqrt (1 / 50)])
   \<and> \<bar>sqrt (1 / 50) - 0.1414\<bar> < (0.0001 :: real)"
proof -
  have "match (NdArray2 2 [[0, 0], [5, 5]]) (NdArray2 2 [[0.1, 0.1], [10, 10]]) 1 None
          = Inr ([0], [0], [sqrt (1 / 50)])"
    using match_arrays [of 2 "[[0, 0], [5, 5]]" "[[0.1, 0.1], [10, 10]]" 1
                           "([0], [0], [sqrt (1 / 50)])"]
          hash_join_scenario
    by (simp add: uniform_def)
  with sqrt_fiftieth show ?thesis by simp
qed

text \<open>
  C7. The claim is that \<^verbatim>\<open>match\<close> with an empty collection returns three empty sequences
  and never raises. The columns matched are those of \<^verbatim>\<open>data1\<close>, and both tables are
  asked for them: the empty sequence \<^verbatim>\<open>[]\<close> as \<^verbatim>\<open>data2\<close> is an array of shape \<open>(0,)\<close>,
  hence a table with the single column 0, and against a \<^verbatim>\<open>data1\<close> of two columns the
  selection of column 1 raises \<^verbatim>\<open>KeyError\<close>.

  What holds: for a positive tolerance, when the columns of \<^verbatim>\<open>data1\<close> are plain
  identifiers that are columns of \<^verbatim>\<open>data2\<close> as well (two arrays of shapes \<open>(n, d)\<close> and
  \<open>(0, d)\<close>, for instance) and one of the two collections has no row, \<^verbatim>\<open>match\<close> returns
  three empty sequences.
\<close>

theorem match_empty_collection:
  assumes "0 < tolerance"
    and "list_all is_plain (columns (as_frame data1))"
    and "set (columns (as_frame data1)) \<subseteq> set (columns (as_frame data2))"
    and "data_len data1 = 0 \<or> data_len data2 = 0"
  shows "match data1 data2 tolerance None = Inr ([], [], [])"
proof -
  let ?f1 = "as_frame data1" and ?f2 = "as_frame data2"
  let ?cs = "columns ?f1"
  let ?sw = "length (rows ?f1) < length (rows ?f2)"
  let ?long = "if ?sw then ?f2 else ?f1" and ?short = "if ?sw then ?f1 else ?f2"
  let ?qlat = "\<lparr>ndim = length ?cs, scale = 1.3 * tolerance\<rparr>"
  have cl: "cols_loop ?cs [] [] = (?cs, ?cs)"
    using cols_loop_plain [OF assms(2), of "[]" "[]"] by simp
  have "set ?cs \<subseteq> set (columns ?long)" using assms(3) by simp
  from select_cols_present [OF this] obtain d1vals
    where d1: "select_cols ?long ?cs = Inr d1vals" and u1: "uniform (length ?cs) d1vals" by blast
  have "set ?cs \<subseteq> set (columns ?short)" using assms(3) by simp
  from select_cols_present [OF this] obtain d2vals
    where d2: "select_cols ?short ?cs = Inr d2vals" and l2: "length d2vals = length (rows ?short)"
    by blast
  have "length (rows ?short) = 0" using assms(4) by (auto simp: data_len_def)
  with l2 have e2: "d2vals = []" by simp
  have hj: "hash_join ?qlat d1vals [] tolerance = Inr ([], [], [])"
    by (rule hash_join_no_short) (simp add: u1)
  show ?thesis
    using assms(1) d1 d2 hj
    by (simp add: match_def Let_def cl ALattice_def e2 split: if_splits)
qed

theorem match_empty_collection_witness:
  "(0 :: real) < 1 \<and> list_all is_plain (columns (as_frame (NdArray2 2 [[0, 0], [5, 5]])))
   \<and> set (columns (as_frame (NdArray2 2 [[0, 0], [5, 5]]))) \<subseteq> set (columns (as_frame (NdArray2 2 [])))
   \<and> (data_len (NdArray2 2 [[0, 0], [5, 5]]) = 0 \<or> data_len (NdArray2 2 []) = 0)
   \<and> match (NdArray2 2 [[0, 0], [5, 5]]) (NdArray2 2 []) 1 None = Inr ([], [], [])"
  using match_empty_collection [of 1 "NdArray2 2 [[0, 0], [5, 5]]" "NdArray2 2 []"]
  by (simp add: data_len_def list_all_iff)

theorem match_empty_sequence_raises:
  "data_len (NdArray1 []) = 0
   \<and> match (NdArray2 2 [[0, 0], [5, 5]]) (NdArray1 []) 1 None = Inl KeyError"
  by (simp add: data_len_def match_def ALattice_def select_cols_def numeral_2_eq_2 Let_def)

text \<open>
  C8. For an array \<open>A\<close> and \<^verbatim>\<open>max_dist > 0\<close>, \<^verbatim>\<open>sparse_distance_matrix(A, None, max_dist, rbf)\<close>
  returns a square matrix, of shape \<open>(len(A), len(A))\<close>. Every diagonal position
  \<open>(i, i)\<close> has an explicit entry of value \<open>rbf 0\<close>; no position has two entries, so
  that entry is the value of the matrix there. The default kernel has \<open>rbf 0 = 1\<close>.
\<close>

theorem sparse_distance_matrix_diagonal:
  assumes "wf_data (NdArray2 d data1)" and "0 < max_dist"
  shows "\<exists>m. sparse_distance_matrix (NdArray2 d data1) None max_dist rbf None = Inr m
            \<and> shape m = (length data1, length data1)
            \<and> (\<forall>i<length data1.
                  (i, i, (case rbf of None \<Rightarrow> default_rbf | Some f \<Rightarrow> f) 0) \<in> set (entries m))
            \<and> distinct (map (\<lambda>(r, c, v). (r, c)) (entries m))
            \<and> default_rbf 0 = 1"
proof -
  let ?lat = "\<lparr>ndim = d, scale = 1.3 * max_dist\<rparr>"
  let ?rbf = "case rbf of None \<Rightarrow> default_rbf | Some f \<Rightarrow> f"
  have u: "uniform d data1" using assms(1) by (simp add: uniform_def)
  from match_arrays_set [OF u u assms(2)] obtain ts
    where m: "match (NdArray2 d data1) (NdArray2 d data1) max_dist None = Inr (appended ([], [], []) ts)"
      and ts: "set ts = join_set ?lat max_dist data1 data1"
      and dist: "distinct (map (\<lambda>t. (fst t, fst (snd t))) ts)" by blast
  let ?m = "\<lparr>shape = (length data1, length data1),
             entries = map (\<lambda>t. (fst t, fst (snd t), ?rbf (snd (snd t)))) ts\<rparr>"
  have run: "sparse_distance_matrix (NdArray2 d data1) None max_dist rbf None = Inr ?m"
    using entries_appended [of ?rbf ts "(length data1, length data1)"]
    by (simp add: sparse_distance_matrix_def Let_def m data_len_def split_def)
  have diag: "(i, i, ?rbf 0) \<in> set (entries ?m)" if "i < length data1" for i
  proof -
    have "(i, i, sqrt (dsq (data1 ! i) (data1 ! i))) \<in> join_set ?lat max_dist data1 data1"
      unfolding join_set_def using that by (auto simp: near_refl dsq_self)
    then have "(i, i, 0) \<in> set ts" by (simp add: ts dsq_self)
    then have "(\<lambda>t. (fst t, fst (snd t), ?rbf (snd (snd t)))) (i, i, 0)
                 \<in> (\<lambda>t. (fst t, fst (snd t), ?rbf (snd (snd t)))) ` set ts"
      by (rule imageI)
    then show ?thesis by simp
  qed
  have d2: "distinct (map (\<lambda>(r, c, v). (r, c)) (entries ?m))"
    using dist by (simp add: comp_def split_def)
  have "default_rbf 0 = 1" by (simp add: default_rbf_def)
  with run diag d2 show ?thesis by (intro exI [of _ ?m]) simp
qed

theorem sparse_distance_matrix_diagonal_witness:
  "wf_data (NdArray2 1 [[0], [5]]) \<and> (0 :: real) < 1
   \<and> (\<exists>m. sparse_distance_matrix (NdArray2 1 [[0], [5]]) None 1 None None = Inr m
         \<and> shape m = (2, 2)
         \<and> (0, 0, default_rbf 0) \<in> set (entries m) \<and> (1, 1, default_rbf 0) \<in> set (entries m)
         \<and> distinct (map (\<lambda>(r, c, v). (r, c)) (entries m))
         \<and> default_rbf 0 = 1)"
proof -
  from sparse_distance_matrix_diagonal [of 1 "[[0], [5]]" 1 None] obtain m
    where m: "sparse_distance_matrix (NdArray2 1 [[0], [5]]) None 1 None None = Inr m"
      "shape m = (length [[0 :: real], [5]], length [[0 :: real], [5]])"
      "\<forall>i<length [[0 :: real], [5]]. (i, i, default_rbf 0) \<in> set (entries m)"
      "distinct (map (\<lambda>(r, c, v). (r, c)) (entries m))" "default_rbf 0 = 1"
    by auto
  from m(3) have "(0, 0, default_rbf 0) \<in> set (entries m)" "(1, 1, default_rbf 0) \<in> set (entries m)"
    by simp_all
  with m show ?thesis by auto
qed

text \<open>
  C9. \<^verbatim>\<open>brute_match\<close> has no test of the tolerance. For two collections of one dimension
  it returns for every tolerance; the tolerance enters through its square only, so a
  negative tolerance gives the result of its absolute value (the pairs at squared distance
  at most \<open>tolerance\<^sup>2\<close>), and tolerance 0 gives exactly the pairs of equal rows, those
  at distance 0.
\<close>

theorem brute_match_accepts_any_tolerance:
  assumes "uniform d data1" and "uniform d data2"
  shows "\<exists>r. brute_match data1 data2 tolerance = Inr r
            \<and> brute_match data1 data2 (- tolerance) = Inr r
            \<and> brute_match data1 data2 \<bar>tolerance\<bar> = Inr r
            \<and> pairs r = {(i, j). i < length data1 \<and> j < length data2
                                 \<and> dsq (data1 ! i) (data2 ! j) \<le> tolerance\<^sup>2}
            \<and> (tolerance = 0 \<longrightarrow>
                 pairs r = {(i, j). i < length data1 \<and> j < length data2 \<and> data1 ! i = data2 ! j})"
proof -
  from brute_match_kept [OF assms, of tolerance] obtain bs
    where b: "brute_match data1 data2 tolerance = Inr (appended ([], [], []) bs)"
      and bs: "set bs = brute_set tolerance data1 data2" by blast
  have p: "pairs (appended ([], [], []) bs)
             = {(i, j). i < length data1 \<and> j < length data2
                        \<and> dsq (data1 ! i) (data2 ! j) \<le> tolerance\<^sup>2}"
    by (auto simp: pairs_appended bs brute_set_def image_iff)
  have z: "dsq (data1 ! i) (data2 ! j) \<le> 0 \<longleftrightarrow> data1 ! i = data2 ! j"
    if "i < length data1" "j < length data2" for i j
  proof -
    have "length (data1 ! i) = length (data2 ! j)"
      using assms that by (simp add: uniform_nth)
    from dsq_zero_iff [OF this] dsq_nonneg [of "data1 ! i" "data2 ! j"] show ?thesis by auto
  qed
  have p0: "pairs (appended ([], [], []) bs)
              = {(i, j). i < length data1 \<and> j < length data2 \<and> data1 ! i = data2 ! j}"
    if "tolerance = 0"
    using z by (auto simp: p that)
  have "brute_match data1 data2 (- tolerance) = brute_match data1 data2 tolerance"
    by (simp add: brute_match_def brute_rows_sign)
  moreover have "brute_match data1 data2 \<bar>tolerance\<bar> = brute_match data1 data2 tolerance"
    by (simp add: brute_match_def brute_rows_abs)
  ultimately show ?thesis using b p p0 by auto
qed

theorem brute_match_accepts_any_tolerance_witness:
  "uniform 1 [[0 :: real], [2]] \<and> uniform 1 [[1 / 2 :: real]]
   \<and> (\<exists>r. brute_match [[0], [2]] [[1 / 2]] (- 1) = Inr r
         \<and> brute_match [[0], [2]] [[1 / 2]] (- (- 1)) = Inr r
         \<and> brute_match [[0], [2]] [[1 / 2]] \<bar>- 1\<bar> = Inr r
         \<and> pairs r = {(i, j). i < length [[0 :: real], [2]] \<and> j < length [[1 / 2 :: real]]
                                 \<and> dsq ([[0], [2]] ! i) ([[1 / 2]] ! j) \<le> (- 1)\<^sup>2})"
  using brute_match_accepts_any_tolerance [of 1 "[[0], [2]]" "[[1 / 2]]" "- 1"] by (simp add: uniform_def)

text \<open>
  C10. When the query of the indexer finds no pair, \<^verbatim>\<open>distance_matrix\<close> raises: the empty
  list of pairs is an array of shape \<open>(0,)\<close>, which \<^verbatim>\<open>coo_matrix\<close> cannot take apart into
  a row and a column sequence. No empty matrix is returned.
\<close>

theorem distance_matrix_raises_without_matches:
  "indexer_match self x = Inr ([], distances)
     \<Longrightarrow> distance_matrix self x = Inl InvalidInputFormat"
  by (simp add: distance_matrix_def index_arrays_def)

theorem distance_matrix_raises_without_matches_witness:
  "indexer_match (projr (MatchingIndexer 1 [[5]] 1)) [[0]] = Inr ([], [])
   \<and> distance_matrix (projr (MatchingIndexer 1 [[5]] 1)) [[0]] = Inl InvalidInputFormat"
  using distance_matrix_raises_without_matches
          [of "projr (MatchingIndexer 1 [[5]] 1)" "[[0]]" "[]"]
        indexer_match_far_query
  by simp

end
